theory Spec2Isabelle
  imports Main "HOL-Library.Sublist"
begin

section \<open>GitHub Actions monitor: run detection, deduplication and dispatch\<close>

text \<open>
  A shallow embedding of \<^verbatim>\<open>github_actions_monitor.py\<close> (class
  \<^verbatim>\<open>GitHubActionsMonitor\<close>). Python methods keep their names without the leading
  underscore. Strings are \<^typ>\<open>string\<close>; command texts and run keys are taken to be
  ASCII (bytes beyond ASCII are carried unchanged). A \<^verbatim>\<open>datetime\<close> is an
  \<^typ>\<open>int\<close> counting microseconds since the epoch, the resolution of Python's
  \<^verbatim>\<open>datetime\<close>; a \<^verbatim>\<open>timedelta\<close> is the difference of two of them, and
  \<^verbatim>\<open>td.total_seconds() > k\<close> for a whole number \<open>k\<close> of seconds is the
  comparison \<open>td > k * 1000000\<close> (the float division by \<open>10^6\<close> is monotone and
  exact at multiples of \<open>10^6\<close>).
\<close>

subsection \<open>Python string primitives\<close>

text \<open>\<^verbatim>\<open>str.lower()\<close> on ASCII text.\<close>

definition lower_char :: "char \<Rightarrow> char" where
  "lower_char c =
     (case map_of (zip ''ABCDEFGHIJKLMNOPQRSTUVWXYZ'' ''abcdefghijklmnopqrstuvwxyz'') c of
        Some l \<Rightarrow> l
      | None \<Rightarrow> c)"

definition lower :: "string \<Rightarrow> string" where
  "lower s = map lower_char s"

text \<open>\<^verbatim>\<open>s.startswith(k)\<close> and the substring test \<^verbatim>\<open>k in s\<close>.\<close>

fun startswith :: "string \<Rightarrow> string \<Rightarrow> bool" where
  "startswith s [] = True"
| "startswith [] (k # ks) = False"
| "startswith (c # cs) (k # ks) = (c = k \<and> startswith cs ks)"

fun str_in :: "string \<Rightarrow> string \<Rightarrow> bool" where
  "str_in k [] = (k = [])"
| "str_in k (c # cs) = (startswith (c # cs) k \<or> str_in k cs)"

text \<open>\<^verbatim>\<open>str(n)\<close> for an integer: its decimal digits, with a minus sign when negative.\<close>

function digits :: "nat \<Rightarrow> string" where
  "digits n =
     (if n < 10 then [''0123456789'' ! n]
      else digits (n div 10) @ [''0123456789'' ! (n mod 10)])"
  by pat_completeness auto
termination
  by (relation "measure (\<lambda>n. n)") auto

declare digits.simps [simp del]

definition str_int :: "int \<Rightarrow> string" where
  "str_int i = (if i < 0 then CHR ''-'' # digits (nat (- i)) else digits (nat i))"

text \<open>\<^verbatim>\<open>s.split(sep)\<close> for a one-character separator: never an empty list.\<close>

fun split :: "char \<Rightarrow> string \<Rightarrow> string list" where
  "split sep [] = [[]]"
| "split sep (c # cs) =
     (if c = sep then [] # split sep cs
      else (case split sep cs of
              [] \<Rightarrow> [[c]]
            | p # ps \<Rightarrow> (c # p) # ps))"

subsection \<open>Command definitions and the default timeout\<close>

text \<open>
  One entry of \<^verbatim>\<open>commands.definitions\<close> (or of the legacy
  \<^verbatim>\<open>commands.on_success\<close> list): a dictionary whose keys may each be absent.
\<close>

record cmd_config =
  cmd_name :: "string option"
  cmd_description :: "string option"
  cmd_command :: "string option"
  cmd_working_directory :: "string option"
  cmd_timeout :: "int option"

text \<open>\<^verbatim>\<open>_get_default_timeout\<close>: a cascade of keyword tests on the lowered text.\<close>

definition get_default_timeout :: "string \<Rightarrow> int" where
  "get_default_timeout command =
     (let command_lower = lower command in
      if list_ex (\<lambda>keyword. str_in keyword command_lower) [''curl'', ''wget'', ''http'']
        then 60
      else if str_in ''kubectl'' command_lower
        then 120
      else if list_ex (\<lambda>keyword. str_in keyword command_lower)
                [''git'', ''clone'', ''pull'', ''push'']
        then 180
      else if list_ex (\<lambda>keyword. str_in keyword command_lower) [''docker'', ''podman'']
        then 300
      else 120)"

text \<open>
  The three reads at the head of the command loop of \<^verbatim>\<open>_execute_commands\<close>:
  \<^verbatim>\<open>cmd_config.get('command', '')\<close>,
  \<^verbatim>\<open>cmd_config.get('description', cmd_config.get('name', 'Unnamed command'))\<close> and
  \<^verbatim>\<open>cmd_config.get('timeout', self._get_default_timeout(command))\<close>.
\<close>

definition command_text :: "cmd_config \<Rightarrow> string" where
  "command_text cmd = (case cmd_command cmd of Some c \<Rightarrow> c | None \<Rightarrow> [])"

definition command_description :: "cmd_config \<Rightarrow> string" where
  "command_description cmd =
     (case cmd_description cmd of
        Some d \<Rightarrow> d
      | None \<Rightarrow> (case cmd_name cmd of Some n \<Rightarrow> n | None \<Rightarrow> ''Unnamed command''))"

definition command_timeout :: "cmd_config \<Rightarrow> int" where
  "command_timeout cmd =
     (case cmd_timeout cmd of
        Some t \<Rightarrow> t
      | None \<Rightarrow> get_default_timeout (command_text cmd))"

subsection \<open>Run source data\<close>

text \<open>
  A workflow run as PyGithub presents it; attributes that may be \<^verbatim>\<open>None\<close> are
  options. \<open>updated_at\<close> is an instant in microseconds.
\<close>

record workflow_run =
  run_id :: int
  run_number :: int
  run_name :: string
  conclusion :: "string option"
  head_branch :: "string option"
  head_sha :: "string option"
  display_title :: "string option"
  updated_at :: "int option"

text \<open>Any exception raised by a call to the GitHub API.\<close>

datatype github_exception = UnknownObjectException | GithubException

text \<open>
  A workflow with the outcome of \<^verbatim>\<open>workflow.get_runs(status='completed')\<close> at
  the time of the scan.
\<close>

record workflow =
  workflow_id :: int
  workflow_name :: string
  get_runs :: "github_exception + workflow_run list"

subsection \<open>Configuration and dedup state\<close>

text \<open>
  The parts of \<^verbatim>\<open>self.config\<close> the engine reads: \<^verbatim>\<open>monitoring.branches\<close>,
  \<^verbatim>\<open>commands.execution_map\<close>, \<^verbatim>\<open>commands.definitions\<close> and
  \<^verbatim>\<open>commands.on_success\<close>. Dictionaries are association lists read with
  \<^const>\<open>map_of\<close>; an absent key and an empty value are both the empty list, as with
  \<^verbatim>\<open>.get(key, {})\<close>.
\<close>

record config =
  branches :: "string list"
  execution_map :: "(string \<times> (string \<times> string list) list) list"
  definitions :: "(string \<times> cmd_config) list"
  on_success :: "cmd_config list"

text \<open>
  \<^verbatim>\<open>self.state_data\<close>: the value under \<^verbatim>\<open>'executed_runs'\<close> is absent, a set,
  or (legacy) a list; every other key is kept as an opaque entry.
\<close>

datatype executed_repr = AsSet "string set" | AsList "string list"

record state_data =
  other_entries :: "(string \<times> string) list"
  executed_runs :: "executed_repr option"

text \<open>
  \<^verbatim>\<open>self.state_data.get('executed_runs', set())\<close> followed by the conversion of a
  list to a set.
\<close>

definition executed_set :: "state_data \<Rightarrow> string set" where
  "executed_set st =
     (case executed_runs st of
        None \<Rightarrow> {}
      | Some (AsSet S) \<Rightarrow> S
      | Some (AsList xs) \<Rightarrow> set xs)"

text \<open>\<^verbatim>\<open>f"{repo_name}:{workflow.id}:{run.id}"\<close>\<close>

definition run_key :: "string \<Rightarrow> workflow \<Rightarrow> workflow_run \<Rightarrow> string" where
  "run_key repo_name wflow run =
     repo_name @ '':'' @ str_int (workflow_id wflow) @ '':'' @ str_int (run_id run)"

subsection \<open>Freshness filter\<close>

definition should_monitor_branch :: "config \<Rightarrow> string option \<Rightarrow> bool" where
  "should_monitor_branch cfg branch =
     (if branches cfg = [] then True
      else (case branch of None \<Rightarrow> False | Some b \<Rightarrow> b \<in> set (branches cfg)))"

text \<open>
  The body of the loop of \<^verbatim>\<open>_get_new_successful_runs\<close>: \<open>True\<close> when the run
  reaches \<^verbatim>\<open>new_successful_runs.append(run)\<close>, \<open>False\<close> at each
  \<^verbatim>\<open>continue\<close>.
\<close>

definition is_new_run ::
  "config \<Rightarrow> string set \<Rightarrow> int \<Rightarrow> string \<Rightarrow> workflow \<Rightarrow> workflow_run \<Rightarrow> bool" where
  "is_new_run cfg executed current_time repo_name wflow run =
     (if run_key repo_name wflow run \<in> executed then False
      else if \<not> should_monitor_branch cfg (head_branch run) then False
      else (case updated_at run of
              None \<Rightarrow> True
            | Some u \<Rightarrow> (if current_time - u > 300 * 1000000 then False else True)))"

definition get_new_successful_runs ::
  "config \<Rightarrow> state_data \<Rightarrow> int \<Rightarrow> string \<Rightarrow> workflow \<Rightarrow> workflow_run list" where
  "get_new_successful_runs cfg st current_time repo_name wflow =
     (case get_runs wflow of
        Inl e \<Rightarrow> []
      | Inr runs \<Rightarrow>
          (let successful_runs = filter (\<lambda>run. conclusion run = Some ''success'') runs;
               executed = executed_set st
           in filter (is_new_run cfg executed current_time repo_name wflow) successful_runs))"

subsection \<open>Command resolution\<close>

text \<open>
  The lookup at the head of \<^verbatim>\<open>_execute_commands\<close>. \<open>None\<close> is Python's
  \<^verbatim>\<open>None\<close>; \<^verbatim>\<open>not repo_commands\<close> holds for \<^verbatim>\<open>None\<close> and for the
  empty list.
\<close>

definition resolve_repo_commands ::
  "(string \<times> (string \<times> string list) list) list \<Rightarrow> string \<Rightarrow> string \<Rightarrow> string list option" where
  "resolve_repo_commands emap repo_name branch_name =
     (let repo_commands =
            (case map_of emap repo_name of
               None \<Rightarrow> None
             | Some repo_config \<Rightarrow>
                 (case map_of repo_config branch_name of
                    Some cs \<Rightarrow> Some cs
                  | None \<Rightarrow> map_of repo_config ''*''))
      in if repo_commands = None \<or> repo_commands = Some [] then
           (case map_of emap ''*'' of
              None \<Rightarrow> repo_commands
            | Some default_config \<Rightarrow>
                (case map_of default_config branch_name of
                   Some cs \<Rightarrow> Some cs
                 | None \<Rightarrow>
                     (case map_of default_config ''*'' of
                        Some cs \<Rightarrow> Some cs
                      | None \<Rightarrow> repo_commands)))
         else repo_commands)"

text \<open>\<^verbatim>\<open>workflow_run.head_branch or 'unknown'\<close>\<close>

definition branch_name_of :: "workflow_run \<Rightarrow> string" where
  "branch_name_of run =
     (case head_branch run of
        None \<Rightarrow> ''unknown''
      | Some b \<Rightarrow> if b = [] then ''unknown'' else b)"

text \<open>
  The list \<^verbatim>\<open>commands_to_execute\<close>: the resolved names turned into definitions, a
  name without a definition being skipped; or the legacy list when the map is empty.
\<close>

definition lookup_definition :: "(string \<times> cmd_config) list \<Rightarrow> string \<Rightarrow> cmd_config option" where
  "lookup_definition defs name =
     (case map_of defs name of
        Some cmd_def \<Rightarrow> Some (cmd_def\<lparr>cmd_name := Some name\<rparr>)
      | None \<Rightarrow> None)"

definition commands_to_execute :: "config \<Rightarrow> string \<Rightarrow> workflow_run \<Rightarrow> cmd_config list" where
  "commands_to_execute cfg repo_name run =
     (if execution_map cfg \<noteq> [] then
        (case resolve_repo_commands (execution_map cfg) repo_name (branch_name_of run) of
           None \<Rightarrow> []
         | Some names \<Rightarrow> List.map_filter (lookup_definition (definitions cfg)) names)
      else on_success cfg)"

text \<open>
  The resolution order in the specification's words: the entry
  \<open>ExecutionMap[repository][branch]\<close>, and the first of the four candidates that is
  present.
\<close>

definition map_entry ::
  "(string \<times> (string \<times> string list) list) list \<Rightarrow> string \<Rightarrow> string \<Rightarrow> string list option" where
  "map_entry emap repository branch =
     (case map_of emap repository of
        None \<Rightarrow> None
      | Some branch_map \<Rightarrow> map_of branch_map branch)"

fun first_present :: "'a option list \<Rightarrow> 'a option" where
  "first_present [] = None"
| "first_present (None # es) = first_present es"
| "first_present (Some v # es) = Some v"

definition spec_first_match ::
  "(string \<times> (string \<times> string list) list) list \<Rightarrow> string \<Rightarrow> string \<Rightarrow> string list option" where
  "spec_first_match emap repository branch =
     first_present
       [map_entry emap repository branch, map_entry emap repository ''*'',
        map_entry emap ''*'' branch, map_entry emap ''*'' ''*'']"

subsection \<open>Command runner\<close>

text \<open>
  What \<^verbatim>\<open>subprocess.run(..., check=False)\<close> can do: return a completed process
  (return code, stdout, stderr) or raise. The exceptions are those derived from
  \<^verbatim>\<open>Exception\<close>; the constructor of the monitor replaces the handlers of SIGINT
  and SIGTERM, so no \<^verbatim>\<open>KeyboardInterrupt\<close> is delivered. \<open>TimeoutExpired\<close>
  carries the partial output, when there is any.
\<close>

datatype subprocess_exception =
    TimeoutExpired "string option" "string option"
  | PermissionError
  | FileNotFoundError
  | OtherException

type_synonym environment = "(string \<times> string) list"

type_synonym subprocess =
  "string \<Rightarrow> string \<Rightarrow> environment \<Rightarrow> int \<Rightarrow> subprocess_exception + (int \<times> string \<times> string)"

text \<open>
  What the runner hands back: the \<^verbatim>\<open>CompletedProcess\<close> of the library or the
  local class \<^verbatim>\<open>TimeoutResult\<close>; Python's \<^verbatim>\<open>None\<close> is \<open>None\<close>.
\<close>

datatype command_result =
    CompletedProcess (returncode: int) (stdout: string) (stderr: string)
  | TimeoutResult (returncode: int) (stdout: string) (stderr: string)

text \<open>
  \<^verbatim>\<open>_execute_single_command\<close>, without its log lines. \<open>Inl\<close> would be an exception
  leaving the method. The handlers are tried in the order of the source. The two reads of
  the logging configuration ahead of the \<^verbatim>\<open>try\<close> are the ones
  \<^verbatim>\<open>_log_command_details\<close> has made just before; the configuration is taken to be
  the dictionary they need.
\<close>

definition execute_single_command ::
  "subprocess \<Rightarrow> string \<Rightarrow> string \<Rightarrow> environment \<Rightarrow> string \<Rightarrow> int
     \<Rightarrow> subprocess_exception + command_result option" where
  "execute_single_command run command working_dir env_vars description timeout =
     (case run command working_dir env_vars timeout of
        Inr (rc, out, err) \<Rightarrow> Inr (Some (CompletedProcess rc out err))
      | Inl (TimeoutExpired partial_out partial_err) \<Rightarrow>
          Inr (Some (TimeoutResult (- 1)
                 (case partial_out of None \<Rightarrow> [] | Some out \<Rightarrow> out)
                 (''Command timed out after '' @ str_int timeout @ '' seconds'')))
      | Inl PermissionError \<Rightarrow> Inr None
      | Inl FileNotFoundError \<Rightarrow> Inr None
      | Inl OtherException \<Rightarrow> Inr None)"

subsection \<open>Dispatch\<close>

text \<open>
  The surroundings of a dispatch: the subprocess behaviour, the best-effort lookup of a
  commit's author (\<open>None\<close> on any failure) and \<^verbatim>\<open>os.getcwd()\<close>.
\<close>

record world =
  subprocess_run :: subprocess
  get_commit_author :: "string \<Rightarrow> string \<Rightarrow> string option"
  getcwd :: string

definition or_unknown :: "string option \<Rightarrow> string" where
  "or_unknown v = (case v of None \<Rightarrow> ''unknown'' | Some s \<Rightarrow> if s = [] then ''unknown'' else s)"

text \<open>
  \<^verbatim>\<open>_prepare_command_environment\<close>: the variables added to the process
  environment (the inherited part belongs to the subprocess behaviour).
\<close>

definition prepare_command_environment ::
  "world \<Rightarrow> string \<Rightarrow> workflow \<Rightarrow> workflow_run \<Rightarrow> environment" where
  "prepare_command_environment w repo_name wflow run =
     (let commit_author =
            (case head_sha run of
               None \<Rightarrow> ''unknown''
             | Some sha \<Rightarrow>
                 if sha = [] then ''unknown''
                 else (case get_commit_author w repo_name sha of
                         None \<Rightarrow> ''unknown''
                       | Some a \<Rightarrow> a))
      in [(''REPO_NAME'', repo_name),
          (''WORKFLOW_NAME'', workflow_name wflow),
          (''WORKFLOW_ID'', str_int (workflow_id wflow)),
          (''BRANCH_NAME'', or_unknown (head_branch run)),
          (''RUN_NUMBER'', str_int (run_number run)),
          (''RUN_ID'', str_int (run_id run)),
          (''COMMIT_SHA'', or_unknown (head_sha run)),
          (''COMMIT_MESSAGE'', or_unknown (display_title run)),
          (''COMMIT_AUTHOR'', commit_author)])"

definition working_dir_of :: "world \<Rightarrow> cmd_config \<Rightarrow> string" where
  "working_dir_of w cmd =
     (case cmd_working_directory cmd of Some d \<Rightarrow> d | None \<Rightarrow> getcwd w)"

text \<open>
  The command loop of \<^verbatim>\<open>_execute_commands\<close>, carrying the flag
  \<^verbatim>\<open>commands_executed\<close> and the list of command texts handed to the runner so far.
  An empty command text is skipped; an exception inside the loop body is logged and
  the loop goes on.
\<close>

fun run_commands ::
  "world \<Rightarrow> environment \<Rightarrow> bool \<Rightarrow> string list \<Rightarrow> cmd_config list \<Rightarrow> bool \<times> string list" where
  "run_commands w env_vars commands_executed started [] = (commands_executed, started)"
| "run_commands w env_vars commands_executed started (cmd # cmds) =
     (let command = command_text cmd in
      if command = [] then run_commands w env_vars commands_executed started cmds
      else
        (case execute_single_command (subprocess_run w) command (working_dir_of w cmd)
                env_vars (command_description cmd) (command_timeout cmd) of
           Inl e \<Rightarrow> run_commands w env_vars commands_executed (started @ [command]) cmds
         | Inr result \<Rightarrow>
             (case result of
                None \<Rightarrow> run_commands w env_vars commands_executed (started @ [command]) cmds
              | Some r \<Rightarrow>
                  if returncode r = 0
                  then run_commands w env_vars True (started @ [command]) cmds
                  else run_commands w env_vars commands_executed (started @ [command]) cmds)))"

text \<open>The last block of \<^verbatim>\<open>_execute_commands\<close>: the key joins the set.\<close>

definition mark_executed :: "state_data \<Rightarrow> string \<Rightarrow> state_data" where
  "mark_executed st key =
     st\<lparr>executed_runs :=
          Some (AsSet (insert key
            (case executed_runs st of
               None \<Rightarrow> {}
             | Some (AsSet S) \<Rightarrow> S
             | Some (AsList xs) \<Rightarrow> set xs)))\<rparr>"

text \<open>
  \<^verbatim>\<open>_execute_commands\<close>: the new state and the commands run, each tagged with the
  key of the run it was run for.
\<close>

definition execute_commands ::
  "config \<Rightarrow> world \<Rightarrow> string \<Rightarrow> workflow \<Rightarrow> workflow_run \<Rightarrow> state_data
     \<Rightarrow> state_data \<times> (string \<times> string) list" where
  "execute_commands cfg w repo_name wflow run st =
     (let cmds = commands_to_execute cfg repo_name run in
      if cmds = [] then (st, [])
      else
        (let key = run_key repo_name wflow run;
             env_vars = prepare_command_environment w repo_name wflow run;
             (commands_executed, started) = run_commands w env_vars False [] cmds
         in (if commands_executed \<or> cmds = [] then mark_executed st key else st,
             map (Pair key) started)))"

text \<open>
  The loop \<^verbatim>\<open>for run in new_runs\<close> and the body of the loop over workflows, shared
  by \<^verbatim>\<open>_monitor_workflows\<close> and \<^verbatim>\<open>_monitor_single_repository\<close>. Each workflow
  comes with the time at which it is scanned. The flag \<^verbatim>\<open>self.running\<close> is taken
  to stay set; clearing it only ends the loops early.
\<close>

fun dispatch_runs ::
  "config \<Rightarrow> world \<Rightarrow> string \<Rightarrow> workflow \<Rightarrow> state_data \<Rightarrow> (string \<times> string) list
     \<Rightarrow> workflow_run list \<Rightarrow> state_data \<times> (string \<times> string) list" where
  "dispatch_runs cfg w repo_name wflow st trace [] = (st, trace)"
| "dispatch_runs cfg w repo_name wflow st trace (run # runs) =
     (case execute_commands cfg w repo_name wflow run st of
        (st', t) \<Rightarrow> dispatch_runs cfg w repo_name wflow st' (trace @ t) runs)"

definition monitor_workflow ::
  "config \<Rightarrow> world \<Rightarrow> int \<Rightarrow> string \<Rightarrow> workflow \<Rightarrow> state_data
     \<Rightarrow> state_data \<times> (string \<times> string) list" where
  "monitor_workflow cfg w current_time repo_name wflow st =
     dispatch_runs cfg w repo_name wflow st []
       (get_new_successful_runs cfg st current_time repo_name wflow)"

fun monitor_single_repository ::
  "config \<Rightarrow> world \<Rightarrow> string \<Rightarrow> (int \<times> workflow) list \<Rightarrow> state_data
     \<Rightarrow> state_data \<times> (string \<times> string) list" where
  "monitor_single_repository cfg w repo_name [] st = (st, [])"
| "monitor_single_repository cfg w repo_name ((current_time, wflow) # workflows) st =
     (case monitor_workflow cfg w current_time repo_name wflow st of
        (st', t) \<Rightarrow>
          (case monitor_single_repository cfg w repo_name workflows st' of
             (st'', t') \<Rightarrow> (st'', t @ t')))"

subsection \<open>Retention\<close>

text \<open>
  \<^verbatim>\<open>int(s)\<close> on ASCII text. The whitespace skipped at both ends is blank, tab,
  line feed, vertical tab, form feed and carriage return; a sign may lead; the decimal
  digits may be separated by single underscores; and more than 4300 digits (the default
  of \<^verbatim>\<open>sys.get_int_max_str_digits()\<close>, underscores not counted) are refused.
  \<open>None\<close> is \<^verbatim>\<open>ValueError\<close>.
\<close>

definition is_space :: "char \<Rightarrow> bool" where
  "is_space c \<longleftrightarrow>
     c \<in> set [CHR '' '', CHR 0x09, CHR 0x0A, CHR 0x0B, CHR 0x0C, CHR 0x0D]"

definition strip :: "string \<Rightarrow> string" where
  "strip s = rev (dropWhile is_space (rev (dropWhile is_space s)))"

definition digit_value :: "char \<Rightarrow> nat option" where
  "digit_value c = map_of (zip ''0123456789'' [0, 1, 2, 3, 4, 5, 6, 7, 8, 9]) c"

fun parse_digits :: "nat \<Rightarrow> string \<Rightarrow> nat option" where
  "parse_digits acc [] = Some acc"
| "parse_digits acc [c] =
     (case digit_value c of None \<Rightarrow> None | Some v \<Rightarrow> Some (10 * acc + v))"
| "parse_digits acc (c # d # ds) =
     (if c = CHR ''_'' then
        (case digit_value d of
           None \<Rightarrow> None
         | Some v \<Rightarrow> parse_digits (10 * acc + v) ds)
      else
        (case digit_value c of
           None \<Rightarrow> None
         | Some v \<Rightarrow> parse_digits (10 * acc + v) (d # ds)))"

definition parse_unsigned :: "string \<Rightarrow> nat option" where
  "parse_unsigned s =
     (if length (filter (\<lambda>c. c \<noteq> CHR ''_'') s) > 4300 then None
      else (case s of
              [] \<Rightarrow> None
            | c # cs \<Rightarrow>
                (case digit_value c of None \<Rightarrow> None | Some v \<Rightarrow> parse_digits v cs)))"

definition py_int :: "string \<Rightarrow> int option" where
  "py_int s =
     (case strip s of
        [] \<Rightarrow> None
      | c # cs \<Rightarrow>
          if c = CHR ''-'' then map_option (\<lambda>n. - int n) (parse_unsigned cs)
          else if c = CHR ''+'' then map_option int (parse_unsigned cs)
          else map_option int (parse_unsigned (c # cs)))"

text \<open>
  \<^verbatim>\<open>self.repos\<close>: each connected repository, with the outcome of
  \<^verbatim>\<open>repo.get_workflow_run(run_id)\<close> (\<open>Inl\<close> when the call raises).
\<close>

type_synonym repositories = "(string \<times> (int \<Rightarrow> github_exception + workflow_run)) list"

text \<open>
  The body of the loop of \<^verbatim>\<open>_cleanup_old_executed_runs\<close>: \<open>True\<close> when the key
  is added to \<^verbatim>\<open>runs_to_remove\<close>. Both \<^verbatim>\<open>int(...)\<close> conversions come before
  the test \<^verbatim>\<open>repo_name in self.repos\<close>, and their \<^verbatim>\<open>ValueError\<close> is caught by
  the handler that removes the key.
\<close>

definition should_remove :: "repositories \<Rightarrow> int \<Rightarrow> string \<Rightarrow> bool" where
  "should_remove repos current_time key =
     (case split CHR '':'' key of
        repo_name # p1 # p2 # rest \<Rightarrow>
          (case py_int p1 of
             None \<Rightarrow> True
           | Some parsed_workflow_id \<Rightarrow>
               (case py_int p2 of
                  None \<Rightarrow> True
                | Some parsed_run_id \<Rightarrow>
                    (case map_of repos repo_name of
                       None \<Rightarrow> False
                     | Some repo \<Rightarrow>
                         (case repo parsed_run_id of
                            Inl e \<Rightarrow> True
                          | Inr run \<Rightarrow>
                              (case updated_at run of
                                 None \<Rightarrow> False
                               | Some u \<Rightarrow> current_time - u > 604800 * 1000000)))))
      | _ \<Rightarrow> False)"

text \<open>
  \<^verbatim>\<open>_cleanup_old_executed_runs\<close>. On a legacy list the in-place difference
  \<^verbatim>\<open>list -= set\<close> raises \<^verbatim>\<open>TypeError\<close>, which the outer handler logs: the state
  stays as it was.
\<close>

definition cleanup_old_executed_runs :: "repositories \<Rightarrow> int \<Rightarrow> state_data \<Rightarrow> state_data" where
  "cleanup_old_executed_runs repos current_time st =
     (case executed_runs st of
        None \<Rightarrow> st
      | Some er \<Rightarrow>
          (let executed = (case er of AsSet S \<Rightarrow> S | AsList xs \<Rightarrow> set xs);
               runs_to_remove = {key \<in> executed. should_remove repos current_time key}
           in if runs_to_remove \<noteq> {} then
                (case er of
                   AsSet S \<Rightarrow> st\<lparr>executed_runs := Some (AsSet (S - runs_to_remove))\<rparr>
                 | AsList xs \<Rightarrow> st)
              else st))"

subsection \<open>Persistence\<close>

text \<open>
  The content of the state file as \<^verbatim>\<open>json.dump\<close> writes it and
  \<^verbatim>\<open>json.load\<close> reads it back: the array under \<^verbatim>\<open>"executed_runs"\<close> (if the
  key is there) and the other entries. A file is \<open>None\<close> when it does not exist or
  cannot be read as JSON.
\<close>

record state_json =
  json_entries :: "(string \<times> string) list"
  json_executed_runs :: "string list option"

text \<open>
  \<^verbatim>\<open>json.dump\<close> of the state dictionary: a set is not serialisable
  (\<^verbatim>\<open>TypeError\<close>, here \<open>None\<close>).
\<close>

definition json_dump :: "state_data \<Rightarrow> state_json option" where
  "json_dump st =
     (case executed_runs st of
        None \<Rightarrow> Some \<lparr>json_entries = other_entries st, json_executed_runs = None\<rparr>
      | Some (AsList xs) \<Rightarrow>
          Some \<lparr>json_entries = other_entries st, json_executed_runs = Some xs\<rparr>
      | Some (AsSet S) \<Rightarrow> None)"

text \<open>
  What \<^verbatim>\<open>list(s)\<close> may return for a set \<open>s\<close>: its members, each once. Their
  order is the iteration order of the set object, which depends on the hash seed of the
  process and on the order in which the members were inserted; two sets with the same
  members need not be listed alike.
\<close>

definition is_listing :: "string list \<Rightarrow> string set \<Rightarrow> bool" where
  "is_listing listing S \<longleftrightarrow> set listing = S \<and> distinct listing"

text \<open>
  \<^verbatim>\<open>_save_state\<close>, from the file before to the file after. The state itself is
  not touched: the list replaces the set in a copy. \<open>listing\<close> is what
  \<^verbatim>\<open>list(...)\<close> returns on the set at this call. A failed dump is logged and
  leaves the file.
\<close>

definition save_state ::
  "string list \<Rightarrow> state_data \<Rightarrow> state_json option \<Rightarrow> state_json option" where
  "save_state listing st file =
     (let state_to_save =
            (case executed_runs st of
               Some (AsSet S) \<Rightarrow> st\<lparr>executed_runs := Some (AsList listing)\<rparr>
             | _ \<Rightarrow> st)
      in case json_dump state_to_save of
           Some content \<Rightarrow> Some content
         | None \<Rightarrow> file)"

text \<open>\<^verbatim>\<open>_load_state\<close>\<close>

definition load_state :: "state_json option \<Rightarrow> state_data" where
  "load_state file =
     (case file of
        None \<Rightarrow>
          \<lparr>other_entries = [(''last_checked_runs'', ''{}'')], executed_runs = Some (AsSet {})\<rparr>
      | Some state \<Rightarrow>
          (case json_executed_runs state of
             Some xs \<Rightarrow> \<lparr>other_entries = json_entries state, executed_runs = Some (AsSet (set xs))\<rparr>
           | None \<Rightarrow> \<lparr>other_entries = json_entries state, executed_runs = Some (AsSet {})\<rparr>))"

text \<open>
  A command that was handed to the runner and came back with return code 0: the
  condition under which the loop sets \<^verbatim>\<open>commands_executed\<close>.
\<close>

definition command_succeeds :: "world \<Rightarrow> environment \<Rightarrow> cmd_config \<Rightarrow> bool" where
  "command_succeeds w env_vars cmd \<longleftrightarrow>
     command_text cmd \<noteq> [] \<and>
     (case subprocess_run w (command_text cmd) (working_dir_of w cmd) env_vars
             (command_timeout cmd) of
        Inr (rc, out, err) \<Rightarrow> rc = 0
      | Inl e \<Rightarrow> False)"

subsection \<open>Example data\<close>

text \<open>
  The scenario of the specification: repository \<^verbatim>\<open>acme/api\<close>, branch
  \<^verbatim>\<open>main\<close>, the command \<^verbatim>\<open>deploy\<close> = \<^verbatim>\<open>echo deployed\<close>; and a
  surrounding in which every subprocess ends the same way.
\<close>

definition deploy_command :: cmd_config where
  "deploy_command =
     \<lparr>cmd_name = None, cmd_description = Some ''Deploy the API'',
      cmd_command = Some ''echo deployed'', cmd_working_directory = Some ''/srv/api'',
      cmd_timeout = None\<rparr>"

definition acme_config :: config where
  "acme_config =
     \<lparr>branches = [],
      execution_map = [(''acme/api'', [(''main'', [''deploy''])])],
      definitions = [(''deploy'', deploy_command)],
      on_success = []\<rparr>"

definition acme_run :: "int option \<Rightarrow> workflow_run" where
  "acme_run updated =
     \<lparr>run_id = 42, run_number = 5, run_name = ''CI'', conclusion = Some ''success'',
      head_branch = Some ''main'', head_sha = Some ''abc123'',
      display_title = Some ''Fix login'', updated_at = updated\<rparr>"

definition acme_workflow :: "workflow_run list \<Rightarrow> workflow" where
  "acme_workflow runs = \<lparr>workflow_id = 7, workflow_name = ''CI'', get_runs = Inr runs\<rparr>"

definition always :: "subprocess_exception + (int \<times> string \<times> string) \<Rightarrow> subprocess" where
  "always outcome = (\<lambda>command working_dir env_vars timeout. outcome)"

definition world_where :: "subprocess_exception + (int \<times> string \<times> string) \<Rightarrow> world" where
  "world_where outcome =
     \<lparr>subprocess_run = always outcome, get_commit_author = (\<lambda>repo_name sha. None),
      getcwd = ''/''\<rparr>"

text \<open>The execution map of the specification's resolution example.\<close>

definition example_map :: "(string \<times> (string \<times> string list) list) list" where
  "example_map = [(''org/repo'', [(''main'', [''a''])]), (''*'', [(''*'', [''b''])])]"

text \<open>
  The connected repositories of the example: \<^verbatim>\<open>acme/api\<close> alone, whose run 42
  is found with the given update time, every other run being unknown upstream. And a state
  with two executed keys, one of them of a repository that is not connected.
\<close>

definition acme_repos :: "int option \<Rightarrow> repositories" where
  "acme_repos updated =
     [(''acme/api'', \<lambda>rid. if rid = 42 then Inr (acme_run updated) else Inl UnknownObjectException)]"

definition two_key_state :: state_data where
  "two_key_state =
     \<lparr>other_entries = [(''last_checked_runs'', ''{}'')],
      executed_runs = Some (AsSet {''acme/api:7:42'', ''ghost/repo:7:42''})\<rparr>"

section \<open>Properties\<close>

subsection \<open>String primitives\<close>

lemma startswith_prefix: "startswith s k \<longleftrightarrow> prefix k s"
  by (induction s k rule: startswith.induct) auto

lemma str_in_sublist: "str_in k s \<longleftrightarrow> sublist k s"
  by (induction s) (simp_all add: startswith_prefix sublist_Cons_right)

lemma digits_small: "n < 10 \<Longrightarrow> digits n = [''0123456789'' ! n]"
  by (simp add: digits.simps)

lemma digits_large:
  "10 \<le> n \<Longrightarrow> digits n = digits (n div 10) @ [''0123456789'' ! (n mod 10)]"
  by (subst digits.simps) simp

subsection \<open>Timeout derivation\<close>

text \<open>
  The cascade as the code has it: the explicit per-command override when present;
  otherwise the first class, in this order, one of whose keywords occurs anywhere in the
  lower-cased command text: \<^verbatim>\<open>curl\<close>, \<^verbatim>\<open>wget\<close> or \<^verbatim>\<open>http\<close>
  give 60 seconds; else \<^verbatim>\<open>kubectl\<close> gives 120; else \<^verbatim>\<open>git\<close>,
  \<^verbatim>\<open>clone\<close>, \<^verbatim>\<open>pull\<close> or \<^verbatim>\<open>push\<close> give 180; else
  \<^verbatim>\<open>docker\<close> or \<^verbatim>\<open>podman\<close> give 300; every other command gets 120.
\<close>

lemma timeout_cascade:
  "command_timeout cmd =
     (case cmd_timeout cmd of
        Some t \<Rightarrow> t
      | None \<Rightarrow>
          (let l = lower (command_text cmd) in
           if sublist ''curl'' l \<or> sublist ''wget'' l \<or> sublist ''http'' l then 60
           else if sublist ''kubectl'' l then 120
           else if sublist ''git'' l \<or> sublist ''clone'' l \<or> sublist ''pull'' l
                   \<or> sublist ''push'' l then 180
           else if sublist ''docker'' l \<or> sublist ''podman'' l then 300
           else 120))"
  by (simp add: command_timeout_def get_default_timeout_def str_in_sublist Let_def
      split: option.splits)

lemma timeout_cascade_examples:
  "command_timeout \<lparr>cmd_name = Some ''build'', cmd_description = None,
       cmd_command = Some ''Docker build -t app .'', cmd_working_directory = None,
       cmd_timeout = None\<rparr> = 300
   \<and> command_timeout \<lparr>cmd_name = Some ''build'', cmd_description = None,
       cmd_command = Some ''Docker build -t app .'', cmd_working_directory = None,
       cmd_timeout = Some 45\<rparr> = 45"
  by (simp add: timeout_cascade command_text_def lower_def lower_char_def
      str_in_sublist [symmetric])

text \<open>
  C9 (timeout derivation, broken by the code): a container-tool command without an
  override is to get 300 seconds, as the claim and the comments of
  \<^verbatim>\<open>_get_default_timeout\<close> say. The command \<^verbatim>\<open>docker pull nginx:latest\<close>
  names the container tool and carries no override, yet the code gives it the 180
  seconds of the version-control class, whose keyword \<^verbatim>\<open>pull\<close> is tested before
  \<^verbatim>\<open>docker\<close>.
\<close>

theorem C9_docker_pull_gets_git_timeout:
  "sublist ''docker'' (lower ''docker pull nginx:latest'')
   \<and> command_timeout \<lparr>cmd_name = Some ''pull_image'', cmd_description = None,
         cmd_command = Some ''docker pull nginx:latest'', cmd_working_directory = None,
         cmd_timeout = None\<rparr> = 180"
  by (simp add: command_timeout_def command_text_def get_default_timeout_def
      lower_def lower_char_def str_in_sublist [symmetric])

subsection \<open>Dispatch and deduplication\<close>

lemma execute_single_command_total:
  "\<exists>r. execute_single_command run c d e n t = Inr r"
  by (simp add: execute_single_command_def split: sum.splits subprocess_exception.splits prod.splits)

lemma execute_single_command_None:
  "execute_single_command run c d e n t = Inr None \<Longrightarrow>
     \<not> (case run c d e t of Inr (rc, out, err) \<Rightarrow> rc = 0 | Inl x \<Rightarrow> False)"
  by (auto simp add: execute_single_command_def split: sum.splits subprocess_exception.splits prod.splits)

lemma execute_single_command_Some:
  "execute_single_command run c d e n t = Inr (Some r) \<Longrightarrow>
     returncode r = 0 \<longleftrightarrow> (case run c d e t of Inr (rc, out, err) \<Rightarrow> rc = 0 | Inl x \<Rightarrow> False)"
  by (auto simp add: execute_single_command_def split: sum.splits subprocess_exception.splits prod.splits)

lemma run_commands_flag:
  "fst (run_commands w env_vars ce started cmds) \<longleftrightarrow>
     ce \<or> (\<exists>cmd \<in> set cmds. command_succeeds w env_vars cmd)"
proof (induction cmds arbitrary: ce started)
  case Nil
  then show ?case by simp
next
  case (Cons cmd cmds)
  show ?case
  proof (cases "command_text cmd = []")
    case True
    then show ?thesis by (simp add: Cons.IH command_succeeds_def)
  next
    case False
    obtain r where r: "execute_single_command (subprocess_run w) (command_text cmd) (working_dir_of w cmd)
                env_vars (command_description cmd) (command_timeout cmd) = Inr r"
      using execute_single_command_total by blast
    show ?thesis
    proof (cases r)
      case None
      with r False execute_single_command_None
      have "\<not> command_succeeds w env_vars cmd"
        unfolding command_succeeds_def by blast
      with None r False show ?thesis by (simp add: Cons.IH)
    next
      case (Some res)
      with r False execute_single_command_Some
      have "command_succeeds w env_vars cmd \<longleftrightarrow> returncode res = 0"
        unfolding command_succeeds_def by blast
      with Some r False show ?thesis by (auto simp add: Cons.IH)
    qed
  qed
qed

lemma run_commands_started:
  "snd (run_commands w env_vars ce started cmds) =
     started @ filter (\<lambda>c. c \<noteq> []) (map command_text cmds)"
proof (induction cmds arbitrary: ce started)
  case Nil
  then show ?case by simp
next
  case (Cons cmd cmds)
  obtain r where r: "execute_single_command (subprocess_run w) (command_text cmd) (working_dir_of w cmd)
                env_vars (command_description cmd) (command_timeout cmd) = Inr r"
    using execute_single_command_total by blast
  then show ?case
    by (cases r) (simp_all add: Cons.IH Let_def)
qed

lemma executed_set_mark: "executed_set (mark_executed st key) = insert key (executed_set st)"
  by (simp add: executed_set_def mark_executed_def split: option.splits executed_repr.splits)

lemma execute_commands_state:
  "fst (execute_commands cfg w repo_name wflow run st) =
     (if \<exists>cmd \<in> set (commands_to_execute cfg repo_name run).
           command_succeeds w (prepare_command_environment w repo_name wflow run) cmd
      then mark_executed st (run_key repo_name wflow run) else st)"
  using run_commands_flag [of w "prepare_command_environment w repo_name wflow run" False "[]" "commands_to_execute cfg repo_name run"]
  by (auto simp add: execute_commands_def Let_def split: prod.splits)

lemma execute_commands_trace:
  "snd (execute_commands cfg w repo_name wflow run st) =
     map (Pair (run_key repo_name wflow run))
       (filter (\<lambda>c. c \<noteq> []) (map command_text (commands_to_execute cfg repo_name run)))"
  using run_commands_started [of w "prepare_command_environment w repo_name wflow run" False "[]" "commands_to_execute cfg repo_name run"]
  by (auto simp add: execute_commands_def Let_def split: prod.splits)

lemma execute_commands_mono:
  "executed_set st \<subseteq> executed_set (fst (execute_commands cfg w repo_name wflow run st))"
  by (auto simp: execute_commands_state executed_set_mark)

lemma execute_commands_keys:
  "fst ` set (snd (execute_commands cfg w repo_name wflow run st)) \<subseteq> {run_key repo_name wflow run}"
  by (auto simp: execute_commands_trace)

lemma dispatch_runs_mono:
  "executed_set st \<subseteq> executed_set (fst (dispatch_runs cfg w repo_name wflow st trace runs))"
proof (induction runs arbitrary: st trace)
  case Nil
  then show ?case by simp
next
  case (Cons run runs)
  obtain st' t where e: "execute_commands cfg w repo_name wflow run st = (st', t)"
    by (cases "execute_commands cfg w repo_name wflow run st")
  with execute_commands_mono [of st cfg w repo_name wflow run]
  have "executed_set st \<subseteq> executed_set st'" by simp
  with Cons.IH [of st' "trace @ t"] e show ?case by auto
qed

lemma dispatch_runs_keys:
  "fst ` set (snd (dispatch_runs cfg w repo_name wflow st trace runs))
     \<subseteq> fst ` set trace \<union> run_key repo_name wflow ` set runs"
proof (induction runs arbitrary: st trace)
  case Nil
  then show ?case by simp
next
  case (Cons run runs)
  obtain st' t where e: "execute_commands cfg w repo_name wflow run st = (st', t)"
    by (cases "execute_commands cfg w repo_name wflow run st")
  with execute_commands_keys [of cfg w repo_name wflow run st]
  have "fst ` set t \<subseteq> {run_key repo_name wflow run}" by simp
  moreover from Cons.IH [of st' "trace @ t"]
  have "fst ` set (snd (dispatch_runs cfg w repo_name wflow st' (trace @ t) runs))
          \<subseteq> fst ` set trace \<union> fst ` set t \<union> run_key repo_name wflow ` set runs"
    by (simp add: image_Un)
  ultimately have "fst ` set (snd (dispatch_runs cfg w repo_name wflow st' (trace @ t) runs))
          \<subseteq> fst ` set trace \<union> insert (run_key repo_name wflow run) (run_key repo_name wflow ` set runs)"
    by blast
  with e show ?case by simp
qed

lemma new_runs_not_executed:
  "run \<in> set (get_new_successful_runs cfg st current_time repo_name wflow)
     \<Longrightarrow> run_key repo_name wflow run \<notin> executed_set st"
  by (auto simp: get_new_successful_runs_def is_new_run_def split: sum.splits if_splits)

lemma monitor_workflow_mono:
  "executed_set st \<subseteq> executed_set (fst (monitor_workflow cfg w current_time repo_name wflow st))"
  by (simp add: monitor_workflow_def dispatch_runs_mono)

lemma monitor_workflow_keys:
  "fst ` set (snd (monitor_workflow cfg w current_time repo_name wflow st)) \<inter> executed_set st = {}"
  using dispatch_runs_keys [of cfg w repo_name wflow st "[]" "get_new_successful_runs cfg st current_time repo_name wflow"]
    new_runs_not_executed [of _ cfg st current_time repo_name wflow]
  by (auto simp: monitor_workflow_def)

lemma monitor_single_repository_inv:
  "executed_set st \<subseteq> executed_set (fst (monitor_single_repository cfg w repo_name workflows st))
   \<and> fst ` set (snd (monitor_single_repository cfg w repo_name workflows st)) \<inter> executed_set st = {}"
proof (induction workflows arbitrary: st)
  case Nil
  then show ?case by simp
next
  case (Cons a workflows)
  obtain current_time wflow where a: "a = (current_time, wflow)" by (cases a)
  obtain st' t where m: "monitor_workflow cfg w current_time repo_name wflow st = (st', t)"
    by (cases "monitor_workflow cfg w current_time repo_name wflow st")
  obtain st'' t' where r: "monitor_single_repository cfg w repo_name workflows st' = (st'', t')"
    by (cases "monitor_single_repository cfg w repo_name workflows st'")
  from m monitor_workflow_mono [of st cfg w current_time repo_name wflow]
  have 1: "executed_set st \<subseteq> executed_set st'" by simp
  from m monitor_workflow_keys [of cfg w current_time repo_name wflow st]
  have 2: "fst ` set t \<inter> executed_set st = {}" by simp
  from r Cons.IH [of st']
  have 3: "executed_set st' \<subseteq> executed_set st''" "fst ` set t' \<inter> executed_set st' = {}" by simp_all
  from 1 2 3 a m r show ?case by auto
qed

text \<open>The example scenario, evaluated.\<close>

lemmas acme_defs = acme_config_def deploy_command_def acme_run_def acme_workflow_def
  world_where_def always_def

lemma acme_selectors:
  "get_runs (acme_workflow rs) = Inr rs" "conclusion (acme_run u) = Some ''success''"
  "head_branch (acme_run u) = Some ''main''" "updated_at (acme_run u) = u"
  "branches acme_config = []"
  by (simp_all add: acme_defs)

lemma acme_run_key: "run_key ''acme/api'' (acme_workflow rs) (acme_run u) = ''acme/api:7:42''"
  by (simp add: run_key_def acme_defs str_int_def digits_small digits_large)

lemma acme_commands:
  "commands_to_execute acme_config ''acme/api'' (acme_run u) =
     [deploy_command\<lparr>cmd_name := Some ''deploy''\<rparr>]"
  by (simp add: commands_to_execute_def acme_config_def acme_run_def resolve_repo_commands_def
      branch_name_of_def List.map_filter_simps lookup_definition_def)

lemma acme_execute_commands:
  "execute_commands acme_config (world_where (Inr (0, ''deployed'', []))) ''acme/api''
     (acme_workflow rs) (acme_run u) (load_state None) =
   (\<lparr>other_entries = [(''last_checked_runs'', ''{}'')],
     executed_runs = Some (AsSet {''acme/api:7:42''})\<rparr>,
    [(''acme/api:7:42'', ''echo deployed'')])"
  by (simp add: execute_commands_def acme_commands acme_run_key Let_def deploy_command_def
      command_text_def world_where_def always_def execute_single_command_def
      mark_executed_def load_state_def)

lemma acme_new_runs:
  "get_new_successful_runs acme_config (load_state None) 1700000010000000 ''acme/api''
     (acme_workflow [acme_run (Some 1700000000000000)]) =
   [acme_run (Some 1700000000000000)]"
  by (simp add: get_new_successful_runs_def is_new_run_def acme_run_key executed_set_def load_state_def
      should_monitor_branch_def acme_selectors)

lemma acme_first_pass:
  "monitor_single_repository acme_config (world_where (Inr (0, ''deployed'', []))) ''acme/api''
     [(1700000010000000, acme_workflow [acme_run (Some 1700000000000000)])] (load_state None) =
   (\<lparr>other_entries = [(''last_checked_runs'', ''{}'')],
     executed_runs = Some (AsSet {''acme/api:7:42''})\<rparr>,
    [(''acme/api:7:42'', ''echo deployed'')])"
  by (simp add: monitor_workflow_def acme_new_runs acme_execute_commands)

text \<open>
  C1 (at-most-once dispatch): for every run key in the executed set of the dedup state,
  run detection leaves out every run with that key, a scan of the repository (detection
  and dispatch over its workflows) runs no command for that key, and the key is still
  in the executed set afterwards. With the state left by a first scan that marked the
  key, this is the second scan of the claim.
\<close>

theorem C1_at_most_once:
  assumes "key \<in> executed_set st"
  shows "(\<forall>run \<in> set (get_new_successful_runs cfg st current_time repo_name wflow).
            run_key repo_name wflow run \<noteq> key)
         \<and> key \<notin> fst ` set (snd (monitor_single_repository cfg w repo_name workflows st))
         \<and> key \<in> executed_set (fst (monitor_single_repository cfg w repo_name workflows st))"
proof -
  have "\<forall>run \<in> set (get_new_successful_runs cfg st current_time repo_name wflow).
            run_key repo_name wflow run \<noteq> key"
    using assms new_runs_not_executed by blast
  moreover have "key \<notin> fst ` set (snd (monitor_single_repository cfg w repo_name workflows st))"
    using assms monitor_single_repository_inv [of st cfg w repo_name workflows] by blast
  moreover have "key \<in> executed_set (fst (monitor_single_repository cfg w repo_name workflows st))"
    using assms monitor_single_repository_inv [of st cfg w repo_name workflows] by blast
  ultimately show ?thesis by simp
qed

text \<open>
  The scenario of the specification: the first scan dispatches \<^verbatim>\<open>echo deployed\<close>
  once and marks the run; the scan of the next cycle, on the state the first one left,
  runs nothing for it.
\<close>

theorem C1_at_most_once_witness:
  "''acme/api:7:42'' \<in> executed_set (fst (monitor_single_repository acme_config
        (world_where (Inr (0, ''deployed'', []))) ''acme/api''
        [(1700000010000000, acme_workflow [acme_run (Some 1700000000000000)])] (load_state None)))
   \<and> snd (monitor_single_repository acme_config
        (world_where (Inr (0, ''deployed'', []))) ''acme/api''
        [(1700000010000000, acme_workflow [acme_run (Some 1700000000000000)])] (load_state None))
       = [(''acme/api:7:42'', ''echo deployed'')]
   \<and> ''acme/api:7:42'' \<notin> fst ` set (snd (monitor_single_repository acme_config
        (world_where (Inr (0, ''deployed'', []))) ''acme/api''
        [(1700000070000000, acme_workflow [acme_run (Some 1700000000000000)])]
        (fst (monitor_single_repository acme_config
          (world_where (Inr (0, ''deployed'', []))) ''acme/api''
          [(1700000010000000, acme_workflow [acme_run (Some 1700000000000000)])] (load_state None)))))"
proof -
  have marked: "''acme/api:7:42'' \<in> executed_set (fst (monitor_single_repository acme_config
        (world_where (Inr (0, ''deployed'', []))) ''acme/api''
        [(1700000010000000, acme_workflow [acme_run (Some 1700000000000000)])] (load_state None)))"
    by (simp only: acme_first_pass) (simp add: executed_set_def)
  have trace: "snd (monitor_single_repository acme_config
        (world_where (Inr (0, ''deployed'', []))) ''acme/api''
        [(1700000010000000, acme_workflow [acme_run (Some 1700000000000000)])] (load_state None))
       = [(''acme/api:7:42'', ''echo deployed'')]"
    by (simp only: acme_first_pass snd_conv)
  from C1_at_most_once [OF marked] marked trace show ?thesis
    by blast
qed

text \<open>
  C2 (as stated, refuted): a command that ran marks the run, says the claim. Here the one
  configured command is run and ends with return code 1, and the run is not marked:
  the flag \<^verbatim>\<open>commands_executed\<close> is set by a return code 0 only.
\<close>

theorem C2_failed_command_counterexample:
  "snd (execute_commands acme_config (world_where (Inr (1, [], ''deploy failed''))) ''acme/api''
          (acme_workflow []) (acme_run None) (load_state None))
     = [(''acme/api:7:42'', ''echo deployed'')]
   \<and> ''acme/api:7:42'' \<notin> executed_set (fst (execute_commands acme_config
          (world_where (Inr (1, [], ''deploy failed''))) ''acme/api''
          (acme_workflow []) (acme_run None) (load_state None)))"
  by (simp add: execute_commands_def acme_commands acme_run_key Let_def deploy_command_def command_text_def
      world_where_def always_def execute_single_command_def load_state_def executed_set_def)

text \<open>
  C2 (amended): after the dispatch of a run for which at least one command definition
  was resolved, the executed set has gained the run's key if at least one command with
  a non-empty text came back with return code 0, and is unchanged otherwise. A run whose
  configured names all lack a definition is not marked and nothing is run for it.
\<close>

theorem C2_marking_condition:
  "(commands_to_execute cfg repo_name run \<noteq> [] \<longrightarrow>
      executed_set (fst (execute_commands cfg w repo_name wflow run st)) =
        (if \<exists>cmd \<in> set (commands_to_execute cfg repo_name run).
               command_succeeds w (prepare_command_environment w repo_name wflow run) cmd
         then insert (run_key repo_name wflow run) (executed_set st)
         else executed_set st))
   \<and> (execution_map cfg \<noteq> [] \<longrightarrow>
        resolve_repo_commands (execution_map cfg) repo_name (branch_name_of run) = Some names \<longrightarrow>
        names \<noteq> [] \<longrightarrow>
        (\<forall>name \<in> set names. map_of (definitions cfg) name = None) \<longrightarrow>
        execute_commands cfg w repo_name wflow run st = (st, []))"
proof (intro conjI impI)
  assume "commands_to_execute cfg repo_name run \<noteq> []"
  show "executed_set (fst (execute_commands cfg w repo_name wflow run st)) =
        (if \<exists>cmd \<in> set (commands_to_execute cfg repo_name run).
               command_succeeds w (prepare_command_environment w repo_name wflow run) cmd
         then insert (run_key repo_name wflow run) (executed_set st)
         else executed_set st)"
    by (simp add: execute_commands_state executed_set_mark)
next
  assume emap: "execution_map cfg \<noteq> []"
    and names: "resolve_repo_commands (execution_map cfg) repo_name (branch_name_of run) = Some names"
    and undefined_names: "\<forall>name \<in> set names. map_of (definitions cfg) name = None"
  from undefined_names have "List.map_filter (lookup_definition (definitions cfg)) names = []"
    by (induction names) (simp_all add: List.map_filter_simps lookup_definition_def)
  with emap names have "commands_to_execute cfg repo_name run = []"
    by (simp add: commands_to_execute_def)
  then show "execute_commands cfg w repo_name wflow run st = (st, [])"
    by (simp add: execute_commands_def)
qed

text \<open>
  Both parts at the example: the resolved command succeeds and the run is marked; with
  no definition for \<^verbatim>\<open>deploy\<close> the state is returned as it was.
\<close>

theorem C2_marking_condition_witness:
  "commands_to_execute acme_config ''acme/api'' (acme_run None) \<noteq> []
   \<and> ''acme/api:7:42'' \<in> executed_set (fst (execute_commands acme_config
        (world_where (Inr (0, ''deployed'', []))) ''acme/api'' (acme_workflow [])
        (acme_run None) (load_state None)))
   \<and> execute_commands (acme_config\<lparr>definitions := []\<rparr>)
        (world_where (Inr (0, ''deployed'', []))) ''acme/api'' (acme_workflow [])
        (acme_run None) (load_state None) = (load_state None, [])"
proof -
  have 1: "commands_to_execute acme_config ''acme/api'' (acme_run None) \<noteq> []"
    by (simp add: acme_commands)
  have 2: "command_succeeds (world_where (Inr (0, ''deployed'', [])))
             (prepare_command_environment (world_where (Inr (0, ''deployed'', []))) ''acme/api''
                (acme_workflow []) (acme_run None))
             (deploy_command\<lparr>cmd_name := Some ''deploy''\<rparr>)"
    by (simp add: command_succeeds_def command_text_def deploy_command_def world_where_def
        always_def)
  have 3: "execution_map (acme_config\<lparr>definitions := []\<rparr>) \<noteq> []"
    "resolve_repo_commands (execution_map (acme_config\<lparr>definitions := []\<rparr>)) ''acme/api''
       (branch_name_of (acme_run None)) = Some [''deploy'']"
    "[''deploy''] \<noteq> []"
    "\<forall>name \<in> set [''deploy'']. map_of (definitions (acme_config\<lparr>definitions := []\<rparr>)) name = None"
    by (simp_all add: acme_config_def resolve_repo_commands_def branch_name_of_def acme_run_def)
  from C2_marking_condition [of acme_config "''acme/api''" "acme_run None"
      "world_where (Inr (0, ''deployed'', []))" "acme_workflow []" "load_state None"] 1 2
  have "''acme/api:7:42'' \<in> executed_set (fst (execute_commands acme_config
        (world_where (Inr (0, ''deployed'', []))) ''acme/api'' (acme_workflow [])
        (acme_run None) (load_state None)))"
    by (simp add: acme_commands acme_run_key)
  moreover from C2_marking_condition [of "acme_config\<lparr>definitions := []\<rparr>" "''acme/api''" "acme_run None"
      "world_where (Inr (0, ''deployed'', []))" "acme_workflow []" "load_state None" "[''deploy'']"] 3
  have "execute_commands (acme_config\<lparr>definitions := []\<rparr>)
        (world_where (Inr (0, ''deployed'', []))) ''acme/api'' (acme_workflow [])
        (acme_run None) (load_state None) = (load_state None, [])"
    by blast
  ultimately show ?thesis using 1 by simp
qed

subsection \<open>Freshness filter\<close>

text \<open>
  C3 (freshness filter): a completed run is kept exactly when its conclusion is
  \<^verbatim>\<open>success\<close>, its key is not in the executed set, its branch is in the allow-list
  (an empty allow-list allows every branch) and the current time minus its update
  timestamp is at most 300 seconds; a run without an update timestamp passes the age
  test and is still subject to the other three.
\<close>

theorem C3_freshness_filter:
  assumes "get_runs wflow = Inr runs"
  shows "run \<in> set (get_new_successful_runs cfg st current_time repo_name wflow) \<longleftrightarrow>
     run \<in> set runs
     \<and> conclusion run = Some ''success''
     \<and> run_key repo_name wflow run \<notin> executed_set st
     \<and> (branches cfg = [] \<or> (\<exists>b. head_branch run = Some b \<and> b \<in> set (branches cfg)))
     \<and> (case updated_at run of
           None \<Rightarrow> True
         | Some u \<Rightarrow> current_time - u \<le> 300 * 1000000)"
  using assms
  by (auto simp: get_new_successful_runs_def is_new_run_def should_monitor_branch_def
      split: option.splits)

text \<open>
  The boundary: a run updated 299 seconds ago is kept, one updated 301 seconds ago is
  not; a run without a timestamp is kept, unless its key is in the executed set.
\<close>

theorem C3_freshness_filter_witness:
  "get_runs (acme_workflow [acme_run (Some 1700000000000000), acme_run (Some 1699999998000000),
        acme_run None]) =
     Inr [acme_run (Some 1700000000000000), acme_run (Some 1699999998000000), acme_run None]
   \<and> acme_run (Some 1700000000000000) \<in> set (get_new_successful_runs acme_config
        (load_state None) 1700000299000000 ''acme/api''
        (acme_workflow [acme_run (Some 1700000000000000), acme_run (Some 1699999998000000),
           acme_run None]))
   \<and> acme_run (Some 1699999998000000) \<notin> set (get_new_successful_runs acme_config
        (load_state None) 1700000299000000 ''acme/api''
        (acme_workflow [acme_run (Some 1700000000000000), acme_run (Some 1699999998000000),
           acme_run None]))
   \<and> acme_run None \<in> set (get_new_successful_runs acme_config
        (load_state None) 1700000299000000 ''acme/api''
        (acme_workflow [acme_run (Some 1700000000000000), acme_run (Some 1699999998000000),
           acme_run None]))
   \<and> acme_run None \<notin> set (get_new_successful_runs acme_config
        (mark_executed (load_state None) ''acme/api:7:42'') 1700000299000000 ''acme/api''
        (acme_workflow [acme_run (Some 1700000000000000), acme_run (Some 1699999998000000),
           acme_run None]))"
proof -
  have runs: "get_runs (acme_workflow [acme_run (Some 1700000000000000),
        acme_run (Some 1699999998000000), acme_run None]) =
     Inr [acme_run (Some 1700000000000000), acme_run (Some 1699999998000000), acme_run None]"
    by (simp add: acme_selectors)
  show ?thesis
    using runs
    by (simp add: C3_freshness_filter [OF runs] acme_selectors acme_run_key executed_set_mark)
      (simp add: executed_set_def load_state_def)
qed

subsection \<open>Command resolution\<close>

lemma first_present_Cons:
  "first_present (e # es) = (case e of None \<Rightarrow> first_present es | Some v \<Rightarrow> Some v)"
  by (cases e) simp_all

lemma resolve_repo_commands_levels:
  "resolve_repo_commands emap repository branch =
     (let repo_level = first_present [map_entry emap repository branch, map_entry emap repository ''*''];
          wildcard_level = first_present [map_entry emap ''*'' branch, map_entry emap ''*'' ''*'']
      in if repo_level = None \<or> repo_level = Some [] then
           (case wildcard_level of Some names \<Rightarrow> Some names | None \<Rightarrow> repo_level)
         else repo_level)"
  by (simp add: resolve_repo_commands_def map_entry_def Let_def first_present_Cons
      split: option.splits)

lemma spec_first_match_levels:
  "spec_first_match emap repository branch =
     (case first_present [map_entry emap repository branch, map_entry emap repository ''*''] of
        Some names \<Rightarrow> Some names
      | None \<Rightarrow> first_present [map_entry emap ''*'' branch, map_entry emap ''*'' ''*''])"
  by (simp add: spec_first_match_def first_present_Cons split: option.splits)

text \<open>
  C4 (as stated, refuted): the first match is claimed to win. With
  \<^verbatim>\<open>{"org/repo": {"main": []}, "*": {"main": ["b"]}}\<close> the first of the four
  candidates present for \<^verbatim>\<open>("org/repo", "main")\<close> is the empty list of
  \<^verbatim>\<open>ExecutionMap["org/repo"]["main"]\<close>, yet the resolver yields \<^verbatim>\<open>["b"]\<close>:
  \<^verbatim>\<open>not repo_commands\<close> is true of an empty list as of \<^verbatim>\<open>None\<close>.
\<close>

theorem C4_empty_first_match_counterexample:
  "spec_first_match [(''org/repo'', [(''main'', [])]), (''*'', [(''main'', [''b''])])]
      ''org/repo'' ''main'' = Some []
   \<and> resolve_repo_commands [(''org/repo'', [(''main'', [])]), (''*'', [(''main'', [''b''])])]
      ''org/repo'' ''main'' = Some [''b'']"
  by (simp add: spec_first_match_def map_entry_def resolve_repo_commands_def)

text \<open>
  C4 (amended): at the repository level the resolver takes
  \<open>ExecutionMap[repository][branch]\<close> if present, else \<open>ExecutionMap[repository]['*']\<close>;
  when that result is absent or an empty list it takes \<open>ExecutionMap['*'][branch]\<close> if
  present, else \<open>ExecutionMap['*']['*']\<close> if present, else keeps the repository-level
  result. So the first match of the four wins whenever the repository-level match is not
  an empty list. With the map of the example, \<^verbatim>\<open>("org/repo", "main")\<close> yields
  \<^verbatim>\<open>["a"]\<close>, \<^verbatim>\<open>("org/repo", "dev")\<close> yields \<^verbatim>\<open>["b"]\<close> and
  \<^verbatim>\<open>("other/repo", "dev")\<close> yields \<^verbatim>\<open>["b"]\<close>.
\<close>

theorem C4_resolution_precedence:
  "resolve_repo_commands emap repository branch =
     (let repo_level = first_present [map_entry emap repository branch, map_entry emap repository ''*''];
          wildcard_level = first_present [map_entry emap ''*'' branch, map_entry emap ''*'' ''*'']
      in if repo_level = None \<or> repo_level = Some [] then
           (case wildcard_level of Some names \<Rightarrow> Some names | None \<Rightarrow> repo_level)
         else repo_level)
   \<and> (first_present [map_entry emap repository branch, map_entry emap repository ''*''] \<noteq> Some []
        \<longrightarrow> resolve_repo_commands emap repository branch = spec_first_match emap repository branch)
   \<and> resolve_repo_commands example_map ''org/repo'' ''main'' = Some [''a'']
   \<and> resolve_repo_commands example_map ''org/repo'' ''dev'' = Some [''b'']
   \<and> resolve_repo_commands example_map ''other/repo'' ''dev'' = Some [''b'']"
proof (intro conjI impI)
  show "resolve_repo_commands emap repository branch =
     (let repo_level = first_present [map_entry emap repository branch, map_entry emap repository ''*''];
          wildcard_level = first_present [map_entry emap ''*'' branch, map_entry emap ''*'' ''*'']
      in if repo_level = None \<or> repo_level = Some [] then
           (case wildcard_level of Some names \<Rightarrow> Some names | None \<Rightarrow> repo_level)
         else repo_level)"
    by (rule resolve_repo_commands_levels)
next
  assume "first_present [map_entry emap repository branch, map_entry emap repository ''*''] \<noteq> Some []"
  then show "resolve_repo_commands emap repository branch = spec_first_match emap repository branch"
    by (cases "first_present [map_entry emap repository branch, map_entry emap repository ''*'']";
        cases "first_present [map_entry emap ''*'' branch, map_entry emap ''*'' ''*'']")
      (simp_all add: resolve_repo_commands_levels spec_first_match_levels Let_def)
qed (simp_all add: resolve_repo_commands_def example_map_def)

text \<open>The implication at \<^verbatim>\<open>("org/repo", "dev")\<close> of the example map.\<close>

theorem C4_resolution_precedence_witness:
  "first_present [map_entry example_map ''org/repo'' ''dev'', map_entry example_map ''org/repo'' ''*'']
     \<noteq> Some []
   \<and> spec_first_match example_map ''org/repo'' ''dev'' = Some [''b'']
   \<and> resolve_repo_commands example_map ''org/repo'' ''dev'' = Some [''b'']"
proof -
  have 1: "first_present [map_entry example_map ''org/repo'' ''dev'',
              map_entry example_map ''org/repo'' ''*''] \<noteq> Some []"
    by (simp add: map_entry_def example_map_def)
  have 2: "spec_first_match example_map ''org/repo'' ''dev'' = Some [''b'']"
    by (simp add: spec_first_match_def map_entry_def example_map_def)
  from C4_resolution_precedence [of example_map "''org/repo''" "''dev''"] 1 2 show ?thesis
    by metis
qed

text \<open>
  C5 (as stated, refuted): with \<^verbatim>\<open>{"org/repo": {"*": []}, "*": {"*": ["b"]}}\<close>
  the first matching entry for \<^verbatim>\<open>("org/repo", "dev")\<close> is an empty list, and the
  resolver passes it over for the later wildcard entry.
\<close>

theorem C5_empty_match_skipped_counterexample:
  "spec_first_match [(''org/repo'', [(''*'', [])]), (''*'', [(''*'', [''b''])])]
      ''org/repo'' ''dev'' = Some []
   \<and> resolve_repo_commands [(''org/repo'', [(''*'', [])]), (''*'', [(''*'', [''b''])])]
      ''org/repo'' ''dev'' = Some [''b'']"
  by (simp add: spec_first_match_def map_entry_def resolve_repo_commands_def)

text \<open>
  C5 (amended): for a pair whose first matching entry is an empty list, the result is
  "no commands" when no entry under the \<open>'*'\<close> repository matches the pair with a
  non-empty list: an empty match under \<open>'*'\<close> is final, and after an empty
  \<open>ExecutionMap[repository][branch]\<close> the entry \<open>ExecutionMap[repository]['*']\<close> is not
  consulted. When an entry under \<open>'*'\<close> matches with a non-empty list, that list is
  the result. Every case yields a value; none raises.
\<close>

theorem C5_empty_match:
  assumes "spec_first_match (execution_map cfg) repo_name (branch_name_of run) = Some []"
  shows "(first_present [map_entry (execution_map cfg) ''*'' (branch_name_of run),
                         map_entry (execution_map cfg) ''*'' ''*''] \<in> {None, Some []}
            \<longrightarrow> resolve_repo_commands (execution_map cfg) repo_name (branch_name_of run) = Some []
                \<and> commands_to_execute cfg repo_name run = [])
       \<and> (\<forall>name names.
             first_present [map_entry (execution_map cfg) ''*'' (branch_name_of run),
                            map_entry (execution_map cfg) ''*'' ''*''] = Some (name # names)
             \<longrightarrow> resolve_repo_commands (execution_map cfg) repo_name (branch_name_of run)
                   = Some (name # names))"
proof -
  let ?repo_level = "first_present [map_entry (execution_map cfg) repo_name (branch_name_of run),
                    map_entry (execution_map cfg) repo_name ''*'']"
  let ?wildcard_level = "first_present [map_entry (execution_map cfg) ''*'' (branch_name_of run),
                    map_entry (execution_map cfg) ''*'' ''*'']"
  from assms have nonempty: "execution_map cfg \<noteq> []"
    by (auto simp: spec_first_match_def map_entry_def)
  from assms have "?repo_level = Some [] \<or> (?repo_level = None \<and> ?wildcard_level = Some [])"
    by (cases ?repo_level) (simp_all add: spec_first_match_levels)
  then have res: "resolve_repo_commands (execution_map cfg) repo_name (branch_name_of run) =
     (case ?wildcard_level of Some names \<Rightarrow> Some names | None \<Rightarrow> Some [])"
    by (auto simp: resolve_repo_commands_levels Let_def split: option.splits)
  show ?thesis
    using nonempty
    by (auto simp: res commands_to_execute_def List.map_filter_simps)
qed

text \<open>
  An empty list for \<^verbatim>\<open>main\<close> beside a non-empty \<open>'*'\<close> entry of the same
  repository, and no \<open>'*'\<close> repository: no commands.
\<close>

theorem C5_empty_match_witness:
  "spec_first_match (execution_map (acme_config\<lparr>execution_map :=
        [(''acme/api'', [(''main'', []), (''*'', [''deploy''])])]\<rparr>)) ''acme/api''
        (branch_name_of (acme_run None)) = Some []
   \<and> commands_to_execute (acme_config\<lparr>execution_map :=
        [(''acme/api'', [(''main'', []), (''*'', [''deploy''])])]\<rparr>) ''acme/api''
        (acme_run None) = []"
proof -
  have 1: "spec_first_match (execution_map (acme_config\<lparr>execution_map :=
        [(''acme/api'', [(''main'', []), (''*'', [''deploy''])])]\<rparr>)) ''acme/api''
        (branch_name_of (acme_run None)) = Some []"
    by (simp add: spec_first_match_def map_entry_def branch_name_of_def acme_run_def)
  have 2: "first_present [map_entry (execution_map (acme_config\<lparr>execution_map :=
        [(''acme/api'', [(''main'', []), (''*'', [''deploy''])])]\<rparr>)) ''*''
          (branch_name_of (acme_run None)),
      map_entry (execution_map (acme_config\<lparr>execution_map :=
        [(''acme/api'', [(''main'', []), (''*'', [''deploy''])])]\<rparr>)) ''*'' ''*'']
      \<in> {None, Some []}"
    by (simp add: map_entry_def)
  from C5_empty_match [OF 1] 1 2 show ?thesis
    by blast
qed

subsection \<open>Command runner\<close>

text \<open>
  C6 (as stated, refuted): the runner is claimed to return in every branch an outcome
  that classifies the result. On \<^verbatim>\<open>PermissionError\<close> and on
  \<^verbatim>\<open>FileNotFoundError\<close> it returns the same \<^verbatim>\<open>None\<close>: the returned value
  does not tell permission denied from not found.
\<close>

theorem C6_outcome_not_classified_counterexample:
  "execute_single_command (always (Inl PermissionError)) ''./deploy.sh'' ''/srv/api'' []
      ''Deploy the API'' 120 = Inr None
   \<and> execute_single_command (always (Inl FileNotFoundError)) ''./deploy.sh'' ''/srv/api'' []
      ''Deploy the API'' 120 = Inr None"
  by (simp add: execute_single_command_def always_def)

text \<open>
  C6 (amended): for every command, working directory, environment and timeout the runner
  raises nothing to its caller. It returns the completed process, with its return code,
  when the command ran to its end; a timeout result with return code \<open>-1\<close> and the
  partial stdout when the command timed out; and \<^verbatim>\<open>None\<close> when
  \<^verbatim>\<open>subprocess.run\<close> raised \<^verbatim>\<open>PermissionError\<close>,
  \<^verbatim>\<open>FileNotFoundError\<close> or any other exception.
\<close>

theorem C6_runner_totality:
  "(\<exists>result. execute_single_command run command working_dir env_vars description timeout
        = Inr result)
   \<and> (\<forall>rc out err. run command working_dir env_vars timeout = Inr (rc, out, err) \<longrightarrow>
         execute_single_command run command working_dir env_vars description timeout
           = Inr (Some (CompletedProcess rc out err)))
   \<and> (\<forall>partial_out partial_err.
         run command working_dir env_vars timeout = Inl (TimeoutExpired partial_out partial_err) \<longrightarrow>
         (\<exists>r. execute_single_command run command working_dir env_vars description timeout
                 = Inr (Some r)
              \<and> returncode r = - 1
              \<and> stdout r = (case partial_out of None \<Rightarrow> [] | Some out \<Rightarrow> out)))
   \<and> (run command working_dir env_vars timeout
         \<in> {Inl PermissionError, Inl FileNotFoundError, Inl OtherException} \<longrightarrow>
       execute_single_command run command working_dir env_vars description timeout = Inr None)"
  by (auto simp: execute_single_command_def split: sum.splits subprocess_exception.splits)

text \<open>A command that times out after 5 seconds, and one that ends with code 3.\<close>

theorem C6_runner_totality_witness:
  "always (Inl (TimeoutExpired (Some ''step 1'') None)) ''sleep 100'' ''/tmp'' [] 5
     = Inl (TimeoutExpired (Some ''step 1'') None)
   \<and> execute_single_command (always (Inl (TimeoutExpired (Some ''step 1'') None)))
        ''sleep 100'' ''/tmp'' [] ''Sleep'' 5
       = Inr (Some (TimeoutResult (- 1) ''step 1'' ''Command timed out after 5 seconds''))
   \<and> execute_single_command (always (Inr (3, [], ''no such host''))) ''curl example.org''
        ''/tmp'' [] ''Fetch'' 60
       = Inr (Some (CompletedProcess 3 [] ''no such host''))"
proof -
  have 1: "always (Inl (TimeoutExpired (Some ''step 1'') None)) ''sleep 100'' ''/tmp'' [] 5
     = Inl (TimeoutExpired (Some ''step 1'') None)"
    by (simp add: always_def)
  have 2: "always (Inr (3, [], ''no such host'')) ''curl example.org'' ''/tmp'' [] 60
     = Inr (3, [], ''no such host'')"
    by (simp add: always_def)
  have "execute_single_command (always (Inl (TimeoutExpired (Some ''step 1'') None)))
        ''sleep 100'' ''/tmp'' [] ''Sleep'' 5
       = Inr (Some (TimeoutResult (- 1) ''step 1'' ''Command timed out after 5 seconds''))"
    by (simp add: execute_single_command_def always_def str_int_def digits_small)
  moreover from C6_runner_totality [of "always (Inr (3, [], ''no such host''))"
      "''curl example.org''" "''/tmp''" "[]" "''Fetch''" 60] 2
  have "execute_single_command (always (Inr (3, [], ''no such host''))) ''curl example.org''
        ''/tmp'' [] ''Fetch'' 60
       = Inr (Some (CompletedProcess 3 [] ''no such host''))"
    by blast
  ultimately show ?thesis using 1 by simp
qed

subsection \<open>Retention\<close>

lemma cleanup_executed_set:
  "executed_runs st = Some (AsSet S) \<Longrightarrow>
     executed_set (cleanup_old_executed_runs repos current_time st) =
       {key \<in> S. \<not> should_remove repos current_time key}"
  by (auto simp: cleanup_old_executed_runs_def executed_set_def Let_def)

lemma cleanup_keeps:
  "key \<in> executed_set st \<Longrightarrow> \<not> should_remove repos current_time key \<Longrightarrow>
     key \<in> executed_set (cleanup_old_executed_runs repos current_time st)"
  by (auto simp: cleanup_old_executed_runs_def executed_set_def Let_def
      split: option.splits executed_repr.splits)

text \<open>The string primitives of the key parser on a few inputs.\<close>

lemma split_examples:
  "split CHR '':'' ''garbage'' = [''garbage'']"
  "split CHR '':'' ''acme/api:7:42'' = [''acme/api'', ''7'', ''42'']"
  "split CHR '':'' ''a::'' = [''a'', [], []]"
  by simp_all

lemma py_int_examples:
  "py_int ''7'' = Some 7" "py_int ''42'' = Some 42" "py_int '' -1_0 '' = Some (- 10)"
  "py_int ''007'' = Some 7" "py_int ''4x'' = None" "py_int ''x'' = None"
  "py_int ''1__0'' = None" "py_int ''_1'' = None" "py_int ''1_'' = None"
  "py_int ''- 7'' = None" "py_int [] = None"
  "py_int (''42'' @ [CHR 0x1F]) = None" "py_int (CHR 0x1C # ''42'') = None"
  "py_int (''42'' @ [CHR 0x0A]) = Some 42"
  by (simp_all add: py_int_def strip_def is_space_def parse_unsigned_def digit_value_def)

lemma parse_unsigned_limit:
  "4300 < n \<Longrightarrow> parse_unsigned (replicate n CHR ''1'') = None"
  by (simp add: parse_unsigned_def)

text \<open>
  The retention of a key with at least three parts: it is evicted when its workflow-id
  or run-id part is not an integer; and, when both are integers and its repository is
  connected, it is evicted if the run cannot be fetched, and otherwise exactly if the
  age of the re-queried run exceeds 7 days (604800 seconds).
\<close>

lemma retention_of_parsed_key:
  assumes "executed_runs st = Some (AsSet S)" and "key \<in> S"
    and "split CHR '':'' key = repo_name # p1 # p2 # rest"
  shows "(py_int p1 = None \<or> py_int p2 = None \<longrightarrow>
            key \<notin> executed_set (cleanup_old_executed_runs repos current_time st))
     \<and> (\<forall>wid rid repo.
           py_int p1 = Some wid \<longrightarrow> py_int p2 = Some rid \<longrightarrow> map_of repos repo_name = Some repo \<longrightarrow>
           (case repo rid of
              Inl e \<Rightarrow> key \<notin> executed_set (cleanup_old_executed_runs repos current_time st)
            | Inr run \<Rightarrow>
                (case updated_at run of
                   None \<Rightarrow> key \<in> executed_set (cleanup_old_executed_runs repos current_time st)
                 | Some u \<Rightarrow>
                     (key \<notin> executed_set (cleanup_old_executed_runs repos current_time st)
                        \<longleftrightarrow> current_time - u > 604800 * 1000000))))"
  using assms
  by (auto simp: cleanup_executed_set should_remove_def split: option.splits sum.splits)

text \<open>
  The same key with its run 8 days old (evicted) and 2 days less (6 days old, retained).
\<close>

lemma retention_of_parsed_key_example:
  "''acme/api:7:42'' \<notin> executed_set (cleanup_old_executed_runs
         (acme_repos (Some 1700000000000000)) 1700691200000000 two_key_state)
   \<and> ''acme/api:7:42'' \<in> executed_set (cleanup_old_executed_runs
         (acme_repos (Some 1700000000000000)) 1700518400000000 two_key_state)"
proof -
  have 1: "executed_runs two_key_state = Some (AsSet {''acme/api:7:42'', ''ghost/repo:7:42''})"
    by (simp add: two_key_state_def)
  have 2: "''acme/api:7:42'' \<in> {''acme/api:7:42'', ''ghost/repo:7:42''}"
    by simp
  have 3: "split CHR '':'' ''acme/api:7:42'' = [''acme/api'', ''7'', ''42'']"
    by simp
  have 4: "py_int ''7'' = Some 7" "py_int ''42'' = Some 42"
    "map_of (acme_repos (Some 1700000000000000)) ''acme/api'' =
       Some (\<lambda>rid. if rid = 42 then Inr (acme_run (Some 1700000000000000))
                    else Inl UnknownObjectException)"
    by (simp_all add: py_int_examples acme_repos_def)
  from retention_of_parsed_key [OF 1 2 3, of "acme_repos (Some 1700000000000000)"
      1700691200000000] 4
  have old: "''acme/api:7:42'' \<notin> executed_set (cleanup_old_executed_runs
         (acme_repos (Some 1700000000000000)) 1700691200000000 two_key_state)"
    by (simp add: acme_selectors)
  from retention_of_parsed_key [OF 1 2 3, of "acme_repos (Some 1700000000000000)"
      1700518400000000] 4
  have recent: "''acme/api:7:42'' \<in> executed_set (cleanup_old_executed_runs
         (acme_repos (Some 1700000000000000)) 1700518400000000 two_key_state)"
    by (simp add: acme_selectors)
  show ?thesis
    by (intro conjI) (fact old recent)+
qed

text \<open>
  C7 (retention postcondition, broken by the code): an unparseable key is to be evicted
  rather than crash the pass, as the claim and the comment of the handler say, and as
  the code does for a key whose id part is not an integer (\<^verbatim>\<open>acme/api:x:1\<close>
  below). The key \<^verbatim>\<open>garbage\<close> has a single part, so it cannot be parsed
  either; the pass does not fail on it, and does not evict it.
\<close>

theorem C7_short_key_retained:
  "split CHR '':'' ''garbage'' = [''garbage'']
   \<and> executed_set (cleanup_old_executed_runs (acme_repos None) 1700000000000000
        \<lparr>other_entries = [], executed_runs = Some (AsSet {''garbage'', ''acme/api:x:1''})\<rparr>)
      = {''garbage''}"
proof -
  have parts: "split CHR '':'' ''garbage'' = [''garbage'']"
    by simp
  have keep: "\<not> should_remove (acme_repos None) 1700000000000000 ''garbage''"
    by (simp add: should_remove_def)
  have evict: "should_remove (acme_repos None) 1700000000000000 ''acme/api:x:1''"
    by (simp add: should_remove_def py_int_examples)
  have "{key \<in> {''garbage'', ''acme/api:x:1''}.
           \<not> should_remove (acme_repos None) 1700000000000000 key} = {''garbage''}"
    using keep evict by auto
  then have "executed_set (cleanup_old_executed_runs (acme_repos None) 1700000000000000
        \<lparr>other_entries = [], executed_runs = Some (AsSet {''garbage'', ''acme/api:x:1''})\<rparr>)
      = {''garbage''}"
    by (simp add: cleanup_executed_set)
  with parts show ?thesis by (rule conjI)
qed

lemma cleanup_passes_keep:
  "key \<in> executed_set st \<Longrightarrow>
   \<forall>(repos, current_time) \<in> set passes. \<not> should_remove repos current_time key \<Longrightarrow>
   key \<in> executed_set
     (fold (\<lambda>(repos, current_time). cleanup_old_executed_runs repos current_time) passes st)"
proof (induction passes arbitrary: st)
  case Nil
  then show ?case by simp
next
  case (Cons pass passes)
  obtain repos current_time where pass: "pass = (repos, current_time)" by (cases pass)
  with Cons.prems have "key \<in> executed_set (cleanup_old_executed_runs repos current_time st)"
    by (simp add: cleanup_keeps)
  with Cons.IH [of "cleanup_old_executed_runs repos current_time st"] Cons.prems(2) pass
  show ?case by simp
qed

text \<open>
  C10 (as stated, refuted): the repository part of \<^verbatim>\<open>ghost/repo:x:1\<close> is read
  without trouble and is not a connected repository, yet the key is evicted: the
  conversion of \<^verbatim>\<open>x\<close> to an integer fails before the repository is looked up.
\<close>

theorem C10_unparsed_id_counterexample:
  "split CHR '':'' ''ghost/repo:x:1'' = [''ghost/repo'', ''x'', ''1'']
   \<and> map_of (acme_repos None) ''ghost/repo'' = None
   \<and> ''ghost/repo:x:1'' \<notin> executed_set (cleanup_old_executed_runs (acme_repos None)
        1700000000000000 \<lparr>other_entries = [], executed_runs = Some (AsSet {''ghost/repo:x:1''})\<rparr>)"
  by (simp add: cleanup_old_executed_runs_def should_remove_def executed_set_def
      py_int_examples acme_repos_def)

text \<open>
  C10 (amended): a key of the executed set that parses as a whole (at least three
  colon-separated parts, the workflow id and the run id integers) and whose repository is
  not among the connected repositories survives the retention pass, whatever the time of
  the pass; and it survives any sequence of passes in which its repository is never
  connected.
\<close>

theorem C10_unconnected_repository_retained:
  assumes "key \<in> executed_set st"
    and "split CHR '':'' key = repo_name # p1 # p2 # rest"
    and "py_int p1 = Some wid" and "py_int p2 = Some rid"
  shows "(map_of repos repo_name = None \<longrightarrow>
            key \<in> executed_set (cleanup_old_executed_runs repos current_time st))
       \<and> ((\<forall>(repos, current_time) \<in> set passes. map_of repos repo_name = None) \<longrightarrow>
            key \<in> executed_set
              (fold (\<lambda>(repos, current_time). cleanup_old_executed_runs repos current_time)
                 passes st))"
proof -
  have keep: "\<not> should_remove repos current_time key" if "map_of repos repo_name = None"
    for repos current_time
    using that assms(2-4) by (simp add: should_remove_def)
  show ?thesis
    using assms(1) keep cleanup_keeps [of key st] cleanup_passes_keep [of key st passes]
    by (auto simp: case_prod_beta)
qed

text \<open>
  The key \<^verbatim>\<open>ghost/repo:7:42\<close> after one pass and after two, years later.
\<close>

theorem C10_unconnected_repository_retained_witness:
  "''ghost/repo:7:42'' \<in> executed_set two_key_state
   \<and> split CHR '':'' ''ghost/repo:7:42'' = [''ghost/repo'', ''7'', ''42'']
   \<and> py_int ''7'' = Some 7 \<and> py_int ''42'' = Some 42
   \<and> map_of (acme_repos (Some 1700000000000000)) ''ghost/repo'' = None
   \<and> ''ghost/repo:7:42'' \<in> executed_set (cleanup_old_executed_runs
         (acme_repos (Some 1700000000000000)) 1800000000000000 two_key_state)
   \<and> ''ghost/repo:7:42'' \<in> executed_set
        (fold (\<lambda>(repos, current_time). cleanup_old_executed_runs repos current_time)
           [(acme_repos (Some 1700000000000000), 1800000000000000),
            (acme_repos None, 1900000000000000)] two_key_state)"
proof -
  have 1: "''ghost/repo:7:42'' \<in> executed_set two_key_state"
    by (simp add: two_key_state_def executed_set_def)
  have 2: "split CHR '':'' ''ghost/repo:7:42'' = [''ghost/repo'', ''7'', ''42'']"
    by simp
  have 3: "py_int ''7'' = Some 7" and 4: "py_int ''42'' = Some 42"
    by (simp_all add: py_int_examples)
  have 5: "map_of (acme_repos u) ''ghost/repo'' = None" for u
    by (simp add: acme_repos_def)
  have 6: "\<forall>(repos, current_time) \<in> set [(acme_repos (Some 1700000000000000), 1800000000000000 :: int),
            (acme_repos None, 1900000000000000)]. map_of repos ''ghost/repo'' = None"
    by (simp add: 5)
  note inst = C10_unconnected_repository_retained [OF 1 2 3 4,
      of "acme_repos (Some 1700000000000000)" 1800000000000000
         "[(acme_repos (Some 1700000000000000), 1800000000000000),
           (acme_repos None, 1900000000000000)]"]
  from inst [THEN conjunct1] 5
  have 7: "''ghost/repo:7:42'' \<in> executed_set (cleanup_old_executed_runs
         (acme_repos (Some 1700000000000000)) 1800000000000000 two_key_state)"
    by simp
  from inst [THEN conjunct2] 6
  have 8: "''ghost/repo:7:42'' \<in> executed_set
        (fold (\<lambda>(repos, current_time). cleanup_old_executed_runs repos current_time)
           [(acme_repos (Some 1700000000000000), 1800000000000000),
            (acme_repos None, 1900000000000000)] two_key_state)"
    by (rule mp)
  show ?thesis
    by (intro conjI) (fact 1 2 3 4 5 7 8)+
qed

subsection \<open>Persistence\<close>

lemma save_state_content:
  "save_state listing st file =
     Some \<lparr>json_entries = other_entries st,
           json_executed_runs =
             (case executed_runs st of
                None \<Rightarrow> None
              | Some (AsSet S) \<Rightarrow> Some listing
              | Some (AsList xs) \<Rightarrow> Some xs)\<rparr>"
proof (cases "executed_runs st")
  case None
  then show ?thesis by (simp add: save_state_def json_dump_def)
next
  case (Some er)
  then show ?thesis
    by (cases er) (simp_all add: save_state_def json_dump_def)
qed

lemma load_save_set:
  "executed_set (load_state (save_state listing st file)) =
     (case executed_runs st of
        None \<Rightarrow> {}
      | Some (AsSet S) \<Rightarrow> set listing
      | Some (AsList xs) \<Rightarrow> set xs)"
proof (cases "executed_runs st")
  case None
  then show ?thesis
    by (simp add: save_state_content load_state_def executed_set_def)
next
  case (Some er)
  then show ?thesis
    by (cases er) (simp_all add: save_state_content load_state_def executed_set_def)
qed

lemma load_state_is_set:
  "executed_runs (load_state f) = Some (AsSet (executed_set (load_state f)))"
proof (cases f)
  case None
  then show ?thesis by (simp add: load_state_def executed_set_def)
next
  case (Some content)
  then show ?thesis
    by (cases "json_executed_runs content") (simp_all add: load_state_def executed_set_def)
qed

text \<open>
  C8 (as stated, refuted): the re-saved output is claimed to be stable byte for byte. A
  state with two keys is saved with its set listed in one order and loaded back; the
  loaded set has the same two members, and when it is listed in the other order, which is
  a listing of it as well, the state written again differs from the first file.
\<close>

theorem C8_array_order_counterexample:
  "is_listing [''ghost/repo:7:42'', ''acme/api:7:42''] (executed_set two_key_state)
   \<and> is_listing [''acme/api:7:42'', ''ghost/repo:7:42'']
        (executed_set (load_state
           (save_state [''ghost/repo:7:42'', ''acme/api:7:42''] two_key_state None)))
   \<and> save_state [''acme/api:7:42'', ''ghost/repo:7:42'']
        (load_state (save_state [''ghost/repo:7:42'', ''acme/api:7:42''] two_key_state None))
        (save_state [''ghost/repo:7:42'', ''acme/api:7:42''] two_key_state None)
      \<noteq> save_state [''ghost/repo:7:42'', ''acme/api:7:42''] two_key_state None"
proof -
  have 1: "executed_set two_key_state = {''acme/api:7:42'', ''ghost/repo:7:42''}"
    by (simp add: two_key_state_def executed_set_def)
  have 2: "executed_runs two_key_state = Some (AsSet {''acme/api:7:42'', ''ghost/repo:7:42''})"
    by (simp add: two_key_state_def)
  have 3: "is_listing [''ghost/repo:7:42'', ''acme/api:7:42''] (executed_set two_key_state)"
    unfolding 1 by (simp add: is_listing_def insert_commute)
  have 4: "executed_set (load_state
           (save_state [''ghost/repo:7:42'', ''acme/api:7:42''] two_key_state None))
        = {''ghost/repo:7:42'', ''acme/api:7:42''}"
    unfolding load_save_set by (simp add: 2)
  have 5: "is_listing [''acme/api:7:42'', ''ghost/repo:7:42'']
        (executed_set (load_state
           (save_state [''ghost/repo:7:42'', ''acme/api:7:42''] two_key_state None)))"
    unfolding 4 by (simp add: is_listing_def insert_commute)
  have 6: "save_state [''acme/api:7:42'', ''ghost/repo:7:42'']
        (load_state (save_state [''ghost/repo:7:42'', ''acme/api:7:42''] two_key_state None))
        (save_state [''ghost/repo:7:42'', ''acme/api:7:42''] two_key_state None)
      \<noteq> save_state [''ghost/repo:7:42'', ''acme/api:7:42''] two_key_state None"
    unfolding save_state_content by (simp add: load_state_is_set 2)
  show ?thesis
    by (intro conjI) (fact 3 5 6)+
qed

text \<open>
  C8 (amended): saving the state, with the executed set written as an array that lists
  each member once in the iteration order of the set, and loading the file back gives
  an executed set equal to the original, and the very same state when the executed runs
  were held as a set. Saving the loaded state again writes the same entries and an array
  with the same members, so that loading once more still gives the original set; the
  second file is equal to the first exactly when the set is listed in the same order
  both times.
\<close>

theorem C8_persistence_round_trip:
  assumes "is_listing listing (executed_set st)"
    and "is_listing listing' (executed_set st)"
  shows "executed_set (load_state (save_state listing st file)) = executed_set st
       \<and> executed_set (load_state (save_state listing'
             (load_state (save_state listing st file)) file')) = executed_set st
       \<and> (\<forall>S. executed_runs st = Some (AsSet S) \<longrightarrow>
             load_state (save_state listing st file) = st
             \<and> save_state listing st file =
                 Some \<lparr>json_entries = other_entries st, json_executed_runs = Some listing\<rparr>
             \<and> save_state listing' (load_state (save_state listing st file)) file' =
                 Some \<lparr>json_entries = other_entries st, json_executed_runs = Some listing'\<rparr>
             \<and> (save_state listing' (load_state (save_state listing st file)) file'
                  = save_state listing st file \<longleftrightarrow> listing' = listing))"
proof -
  from assms have sets: "set listing = executed_set st" "set listing' = executed_set st"
    by (simp_all add: is_listing_def)
  have 1: "executed_set (load_state (save_state listing st file)) = executed_set st"
  proof (cases "executed_runs st")
    case None
    then show ?thesis
      unfolding load_save_set by (simp add: executed_set_def)
  next
    case (Some er)
    with sets show ?thesis
      unfolding load_save_set by (cases er) (simp_all add: executed_set_def)
  qed
  have 2: "executed_set (load_state (save_state listing'
             (load_state (save_state listing st file)) file')) = executed_set st"
    using sets load_state_is_set [of "save_state listing st file"]
    by (simp add: load_save_set)
  have 3: "load_state (save_state listing st file) = st
           \<and> save_state listing st file =
               Some \<lparr>json_entries = other_entries st, json_executed_runs = Some listing\<rparr>
           \<and> save_state listing' (load_state (save_state listing st file)) file' =
               Some \<lparr>json_entries = other_entries st, json_executed_runs = Some listing'\<rparr>
           \<and> (save_state listing' (load_state (save_state listing st file)) file'
                = save_state listing st file \<longleftrightarrow> listing' = listing)"
    if S: "executed_runs st = Some (AsSet S)" for S
  proof -
    from S sets have l: "set listing = S" by (simp add: executed_set_def)
    have a: "save_state listing st file =
               Some \<lparr>json_entries = other_entries st, json_executed_runs = Some listing\<rparr>"
      by (simp add: save_state_content S)
    have b: "load_state (save_state listing st file) = st"
      using S l by (simp add: a load_state_def)
    have c: "save_state listing' (load_state (save_state listing st file)) file' =
               Some \<lparr>json_entries = other_entries st, json_executed_runs = Some listing'\<rparr>"
      unfolding b by (simp add: save_state_content S)
    from a b c show ?thesis by simp
  qed
  from 1 2 3 show ?thesis by blast
qed

text \<open>The state with two keys, written in one order, read back and written in the other.\<close>

theorem C8_persistence_round_trip_witness:
  "is_listing [''ghost/repo:7:42'', ''acme/api:7:42''] (executed_set two_key_state)
   \<and> is_listing [''acme/api:7:42'', ''ghost/repo:7:42''] (executed_set two_key_state)
   \<and> load_state (save_state [''ghost/repo:7:42'', ''acme/api:7:42''] two_key_state None)
       = two_key_state
   \<and> executed_set (load_state (save_state [''acme/api:7:42'', ''ghost/repo:7:42'']
        (load_state (save_state [''ghost/repo:7:42'', ''acme/api:7:42''] two_key_state None))
        None)) = executed_set two_key_state"
proof -
  have s: "executed_set two_key_state = {''acme/api:7:42'', ''ghost/repo:7:42''}"
    by (simp add: two_key_state_def executed_set_def)
  have 1: "is_listing [''ghost/repo:7:42'', ''acme/api:7:42''] (executed_set two_key_state)"
    unfolding s by (simp add: is_listing_def insert_commute)
  have 2: "is_listing [''acme/api:7:42'', ''ghost/repo:7:42''] (executed_set two_key_state)"
    unfolding s by (simp add: is_listing_def insert_commute)
  have 3: "executed_runs two_key_state = Some (AsSet {''acme/api:7:42'', ''ghost/repo:7:42''})"
    by (simp add: two_key_state_def)
  note inst = C8_persistence_round_trip [OF 1 2, of None None]
  have 4: "load_state (save_state [''ghost/repo:7:42'', ''acme/api:7:42''] two_key_state None)
       = two_key_state"
    by (rule inst [THEN conjunct2, THEN conjunct2, rule_format, OF 3, THEN conjunct1])
  note 5 = inst [THEN conjunct2, THEN conjunct1]
  show ?thesis
    by (intro conjI) (fact 1 2 4 5)+
qed

end
